theory Spec2Isabelle
  imports Main "HOL-Library.Product_Lexorder"
begin

section \<open>The journal as ledger\_afa.py sees it\<close>

text \<open>
  The program reads a journal through the objects of the ledger library: accounts,
  transactions and postings that point at each other. The model keeps every posting once,
  in a list in journal order; \<open>account.posts()\<close> and \<open>xact.posts()\<close> select from that list,
  so a posting belongs to one account and to one transaction by construction.

  A date is the triple (year, month, day); the lexicographic order on triples is the
  chronological order that Python's \<open>min\<close> uses on \<open>datetime.date\<close>.
  An amount is an integer number of minor units of one commodity.
\<close>

type_synonym pydate = "int \<times> int \<times> int"

definition year_of :: "pydate \<Rightarrow> int" where
  "year_of d = fst d"

text \<open>An account is a node of the account tree: \<open>account.name\<close>, \<open>account.fullname()\<close>
  and \<open>account.accounts()\<close>.\<close>

datatype account = Account (name: string) (fullname: string) (accounts: "account list")

text \<open>A transaction object: \<open>xact_ref\<close> is its identity, \<open>code\<close> is \<open>xact.code\<close>
  (\<open>None\<close> when the transaction carries no code).\<close>

record xact =
  xact_ref :: nat
  code :: "string option"

record post =
  post_id :: nat
  account :: account
  xact :: xact
  date :: pydate
  amount :: int

text \<open>The journal: \<open>find_account_re\<close> is the lookup of the ledger library (its matching
  rules are the library's, so it is a field of the journal), \<open>all_posts\<close> holds the
  postings.\<close>

record journal =
  find_account_re :: "string \<Rightarrow> account option"
  all_posts :: "post list"

text \<open>\<open>account.posts()\<close>: the postings attached to the account. Two account handles with
  the same fullname are the same account.\<close>

definition posts :: "journal \<Rightarrow> account \<Rightarrow> post list" where
  "posts j a = filter (\<lambda>p. fullname (account p) = fullname a) (all_posts j)"

text \<open>\<open>xact.posts()\<close>: the postings of the transaction.\<close>

definition xact_posts :: "journal \<Rightarrow> xact \<Rightarrow> post list" where
  "xact_posts j x = filter (\<lambda>p. xact p = x) (all_posts j)"

datatype error =
  ValueError string
| AttributeError string string

section \<open>Python built-ins\<close>

text \<open>\<open>sum(xs)\<close> starts at 0 and adds from the left.\<close>

definition py_sum :: "int list \<Rightarrow> int" where
  "py_sum xs = foldl (+) 0 xs"

text \<open>\<open>min(xs)\<close> raises ValueError on an empty sequence and otherwise keeps the first
  smallest element.\<close>

definition py_min :: "'a::linorder list \<Rightarrow> error + 'a" where
  "py_min xs =
     (case xs of
        [] \<Rightarrow> Inl (ValueError ''min() arg is an empty sequence'')
      | x # rest \<Rightarrow> Inr (fold (\<lambda>y m. if y < m then y else m) rest x))"

section \<open>get\_sub\_accounts\<close>

fun get_sub_accounts :: "account \<Rightarrow> account list" where
  "get_sub_accounts (Account n f cs) = cs @ concat (map get_sub_accounts cs)"

section \<open>get\_afa\_posts\<close>

definition get_afa_posts :: "journal \<Rightarrow> string \<Rightarrow> int \<Rightarrow> error + post list" where
  "get_afa_posts j acc yr =
     (case find_account_re j acc of
        None \<Rightarrow> Inl (ValueError (''Konto nicht gefunden: '' @ acc))
      | Some top_acc \<Rightarrow>
          Inr [p. a \<leftarrow> top_acc # get_sub_accounts top_acc, p \<leftarrow> posts j a, year_of (date p) = yr])"

section \<open>get\_inventory\<close>

text \<open>
  The inventory is a Python set of tuples \<open>(account, xact)\<close>. After the patch of
  \<open>__hash__\<close> and \<open>__eq__\<close> two accounts are equal when their fullnames are; a
  transaction is equal to itself only. The set is a list without equal elements; adding an
  element that is already there keeps the old one. Python iterates over a set in an order
  of its own; the list keeps the order of insertion, and nothing proved below depends on
  the order.
\<close>

definition pair_eq :: "account \<times> xact \<Rightarrow> account \<times> xact \<Rightarrow> bool" where
  "pair_eq e e' = (fullname (fst e) = fullname (fst e') \<and> snd e = snd e')"

definition set_add :: "(account \<times> xact) list \<Rightarrow> account \<times> xact \<Rightarrow> (account \<times> xact) list" where
  "set_add s e = (if \<exists>e' \<in> set s. pair_eq e' e then s else s @ [e])"

definition set_ior :: "(account \<times> xact) list \<Rightarrow> (account \<times> xact) list \<Rightarrow> (account \<times> xact) list" where
  "set_ior s es = fold (\<lambda>e s'. set_add s' e) es s"

definition py_set :: "(account \<times> xact) list \<Rightarrow> (account \<times> xact) list" where
  "py_set es = set_ior [] es"

definition get_inventory :: "journal \<Rightarrow> post list \<Rightarrow> (account \<times> xact) list" where
  "get_inventory j ps =
     fold (\<lambda>post inventory.
             set_ior inventory
               (py_set [(account p, xact p). p \<leftarrow> xact_posts j (xact post),
                          fullname (account p) \<noteq> fullname (account post)]))
          ps []"

section \<open>InventoryItem\<close>

text \<open>The object under construction: an attribute is \<open>None\<close> until \<open>__init__\<close> has
  assigned it.\<close>

record inventory_item =
  item_code :: "string option option"
  item :: "string option"
  item_account :: "string option"
  item_year :: "int option"
  buy_date :: "pydate option"
  total_value :: "int option"
  last_year_value :: "int option"
  next_year_value :: "int option"
  deprecation_amount :: "int option"

definition new_item :: inventory_item where
  "new_item = \<lparr>item_code = None, item = None, item_account = None, item_year = None,
     buy_date = None, total_value = None, last_year_value = None, next_year_value = None,
     deprecation_amount = None\<rparr>"

text \<open>The local variable \<open>first_post\<close>: it is bound to the list of candidates, and to the
  single posting only when the unpacking \<open>first_post, = first_post\<close> succeeds.\<close>

datatype first_post_var = Still_list "post list" | Unpacked post

text \<open>\<open>first_post.id\<close>: a list has no attribute \<open>id\<close>.\<close>

definition first_post_id :: "first_post_var \<Rightarrow> error + nat" where
  "first_post_id v =
     (case v of
        Still_list l \<Rightarrow> Inl (AttributeError ''list'' ''id'')
      | Unpacked p \<Rightarrow> Inr (post_id p))"

text \<open>The sum of lines 175 to 181. The conditions of the generator are joined by
  \<open>and\<close>, so \<open>first_post.id\<close> is evaluated only for a posting dated in the year of the
  report; the first posting for which it raises ends the sum.\<close>

fun deprecation_sum ::
  "first_post_var \<Rightarrow> string option \<Rightarrow> int \<Rightarrow> post list \<Rightarrow> int \<Rightarrow> error + int" where
  "deprecation_sum fp c yr [] acc = Inr acc"
| "deprecation_sum fp c yr (p # ps) acc =
     (if year_of (date p) = yr then
        (case first_post_id fp of
           Inl e \<Rightarrow> Inl e
         | Inr fid \<Rightarrow>
             if post_id p \<noteq> fid \<and> amount p < 0 \<and> code (xact p) = c
             then deprecation_sum fp c yr ps (acc + amount p)
             else deprecation_sum fp c yr ps acc)
      else deprecation_sum fp c yr ps acc)"

text \<open>\<open>InventoryItem(account, xact, year)\<close> returns what \<open>__init__\<close> printed, the object
  as far as it was built, and the exception that left \<open>__init__\<close>, if any.\<close>

definition InventoryItem ::
  "journal \<Rightarrow> account \<Rightarrow> xact \<Rightarrow> int \<Rightarrow> string list \<times> inventory_item \<times> error option" where
  "InventoryItem j acc x yr =
     (let self = new_item\<lparr>item_code := Some (code x), item := Some (name acc),
                   item_account := Some (fullname acc), item_year := Some yr\<rparr>
      in case py_min [date p. p \<leftarrow> posts j acc, code (xact p) = code x] of
           Inl e \<Rightarrow> ([], self, Some e)
         | Inr bd \<Rightarrow>
            (let self = self\<lparr>buy_date := Some bd\<rparr>;
                 first_post = [p \<leftarrow> posts j acc.
                                 code (xact p) = code x \<and> date p = bd \<and> amount p > 0];
                 (out, first_post) =
                    (case first_post of
                       [] \<Rightarrow> ([''need more than 0 values to unpack''], Still_list first_post)
                     | [p] \<Rightarrow> ([], Unpacked p)
                     | _ \<Rightarrow> ([''too many values to unpack''], Still_list first_post));
                 self = self\<lparr>total_value :=
                   Some (py_sum [\<bar>amount p\<bar>. p \<leftarrow> posts j acc, pn \<leftarrow> xact_posts j (xact p),
                                   date p = bd \<and> code (xact p) = code x
                                   \<and> amount pn < 0 \<and> post_id p \<noteq> post_id pn])\<rparr>;
                 self = self\<lparr>last_year_value :=
                   Some (py_sum [amount p. p \<leftarrow> posts j acc,
                                   (year_of (date p) < yr \<and> code (xact p) = code x)
                                   \<or> (year_of (date p) = yr \<and> amount p > 0
                                       \<and> code (xact p) = code x)])\<rparr>;
                 self = self\<lparr>next_year_value :=
                   Some (py_sum [amount p. p \<leftarrow> posts j acc,
                                   year_of (date p) \<le> yr \<and> code (xact p) = code x])\<rparr>
             in case deprecation_sum first_post (code x) yr (posts j acc) 0 of
                  Inl e \<Rightarrow> (out, self, Some e)
                | Inr d \<Rightarrow> (out, self\<lparr>deprecation_amount := Some d\<rparr>, None)))"

section \<open>main\<close>

text \<open>The list comprehension of line 212: the items are built in turn and the first
  exception ends the comprehension.\<close>

fun build_inventory ::
  "journal \<Rightarrow> int \<Rightarrow> (account \<times> xact) list \<Rightarrow> string list \<times> (error + inventory_item list)" where
  "build_inventory j yr [] = ([], Inr [])"
| "build_inventory j yr ((a, x) # rest) =
     (case InventoryItem j a x yr of
        (out, self, Some e) \<Rightarrow> (out, Inl e)
      | (out, self, None) \<Rightarrow>
          (case build_inventory j yr rest of
             (out', Inl e) \<Rightarrow> (out @ out', Inl e)
           | (out', Inr items) \<Rightarrow> (out @ out', Inr (self # items))))"

text \<open>What the program writes: a message, or the table rendered from the items and the
  year (\<open>create_table\<close> and \<open>tabulate\<close> lay the table out; of the layout only the
  sums of the footer row are modelled, below).\<close>

datatype printed = Message string | Table "inventory_item list" int

text \<open>\<open>main\<close> on an already loaded journal with the arguments \<open>konto\<close> and \<open>jahr\<close>:
  the lines printed and the exception that ends the program, if one is not caught. Only
  ValueError is caught.\<close>

definition main :: "journal \<Rightarrow> string \<Rightarrow> int \<Rightarrow> printed list \<times> error option" where
  "main j konto jahr =
     (case get_afa_posts j konto jahr of
        Inl (ValueError m) \<Rightarrow> ([Message m], None)
      | Inl e \<Rightarrow> ([], Some e)
      | Inr ps \<Rightarrow>
          (case build_inventory j jahr (get_inventory j ps) of
             (out, Inl (ValueError m)) \<Rightarrow> (map Message out @ [Message m], None)
           | (out, Inl e) \<Rightarrow> (map Message out, Some e)
           | (out, Inr items) \<Rightarrow> (map Message out @ [Table items jahr], None)))"

text \<open>The footer row of \<open>create_table\<close> (lines 96 to 99) holds the sum of a column over
  all items of the list, \<open>sum(i.total_value for i in items)\<close> and likewise for the other
  three columns. Reading an attribute that \<open>__init__\<close> has not assigned ends the sum
  (\<open>None\<close>); the items that reach the table are built completely.\<close>

definition column_sum :: "(inventory_item \<Rightarrow> int option) \<Rightarrow> inventory_item list \<Rightarrow> int option" where
  "column_sum attr items = map_option py_sum (those (map attr items))"



section \<open>Notions of the specification\<close>

text \<open>The postings of the account whose transaction code is the code of the triggering
  transaction.\<close>

definition code_posts :: "journal \<Rightarrow> account \<Rightarrow> xact \<Rightarrow> post list" where
  "code_posts j acc x = filter (\<lambda>p. code (xact p) = code x) (posts j acc)"

text \<open>The candidates for \<open>first_post\<close> in the words of the specification: the postings
  with matching code, dated on the buy date (the least date of a code-matching posting),
  with a positive amount.\<close>

definition first_posts :: "journal \<Rightarrow> account \<Rightarrow> xact \<Rightarrow> post list" where
  "first_posts j acc x =
     filter (\<lambda>p. date p = Min (date ` set (code_posts j acc x)) \<and> amount p > 0)
       (code_posts j acc x)"

section \<open>Example journals\<close>

text \<open>
  The journal of the end-to-end scenario: a laptop bought on 2020-01-15 for 1000 with the
  code INV1, paid by card, and written off by 200 on 2021-06-01 under the same code.
\<close>

definition laptop :: account where
  "laptop = Account ''Laptop'' ''Assets:Laptop'' []"

definition card :: account where
  "card = Account ''Card'' ''Liabilities:Card'' []"

definition afa :: account where
  "afa = Account ''AfA'' ''Expenses:AfA'' []"

definition x1 :: xact where
  "x1 = \<lparr>xact_ref = 1, code = Some ''INV1''\<rparr>"

definition x2 :: xact where
  "x2 = \<lparr>xact_ref = 2, code = Some ''INV1''\<rparr>"

definition p1 :: post where
  "p1 = \<lparr>post_id = 1, account = laptop, xact = x1, date = (2020, 1, 15), amount = 1000\<rparr>"

definition p2 :: post where
  "p2 = \<lparr>post_id = 2, account = card, xact = x1, date = (2020, 1, 15), amount = - 1000\<rparr>"

definition p3 :: post where
  "p3 = \<lparr>post_id = 3, account = afa, xact = x2, date = (2021, 6, 1), amount = 200\<rparr>"

definition p4 :: post where
  "p4 = \<lparr>post_id = 4, account = laptop, xact = x2, date = (2021, 6, 1), amount = - 200\<rparr>"

definition j0 :: journal where
  "j0 = \<lparr>find_account_re = (\<lambda>s. if s = ''AfA'' then Some afa else None),
          all_posts = [p1, p2, p3, p4]\<rparr>"

text \<open>A transaction with another code, which no posting of the journals here carries.\<close>

definition x7 :: xact where
  "x7 = \<lparr>xact_ref = 7, code = Some ''INV7''\<rparr>"

text \<open>
  A journal that holds the write-off of the laptop only: 200 booked to the AfA account on
  2021-01-01, the posting on the laptop carrying its own date 2020-12-31.
\<close>

definition x5 :: xact where
  "x5 = \<lparr>xact_ref = 5, code = Some ''INV5''\<rparr>"

definition p5 :: post where
  "p5 = \<lparr>post_id = 5, account = afa, xact = x5, date = (2021, 1, 1), amount = 200\<rparr>"

definition p6 :: post where
  "p6 = \<lparr>post_id = 6, account = laptop, xact = x5, date = (2020, 12, 31), amount = - 200\<rparr>"

definition j1 :: journal where
  "j1 = \<lparr>find_account_re = (\<lambda>s. if s = ''AfA'' then Some afa else None),
          all_posts = [p5, p6]\<rparr>"

text \<open>A journal in which the laptop is paid from two accounts: 600 by card and 400 from
  the bank account, in one transaction.\<close>

definition bank :: account where
  "bank = Account ''Bank'' ''Assets:Bank'' []"

definition x3 :: xact where
  "x3 = \<lparr>xact_ref = 3, code = Some ''INV3''\<rparr>"

definition p7 :: post where
  "p7 = \<lparr>post_id = 7, account = laptop, xact = x3, date = (2020, 1, 15), amount = 1000\<rparr>"

definition p8 :: post where
  "p8 = \<lparr>post_id = 8, account = card, xact = x3, date = (2020, 1, 15), amount = - 600\<rparr>"

definition p9 :: post where
  "p9 = \<lparr>post_id = 9, account = bank, xact = x3, date = (2020, 1, 15), amount = - 400\<rparr>"

definition j2 :: journal where
  "j2 = \<lparr>find_account_re = (\<lambda>s. if s = ''AfA'' then Some afa else None),
          all_posts = [p7, p8, p9]\<rparr>"

text \<open>\<open>total_value\<close> in the words of the specification: every posting of the account that
  is dated on the buy date, carries the code and has some other posting with a negative
  amount in its transaction counts once, with its absolute amount.\<close>

definition spec_total_value :: "journal \<Rightarrow> account \<Rightarrow> xact \<Rightarrow> int" where
  "spec_total_value j acc x =
     (\<Sum>p\<leftarrow>filter (\<lambda>p. \<exists>pn\<in>set (xact_posts j (xact p)).
                          date p = Min (date ` set (code_posts j acc x)) \<and> code (xact p) = code x
                          \<and> amount pn < 0 \<and> post_id p \<noteq> post_id pn)
               (posts j acc). \<bar>amount p\<bar>)"

section \<open>Positions in the account tree\<close>

text \<open>A position is the list of child indices that leads from an account down to one of
  the accounts below it; the empty list is the position of the account itself. Two account
  objects of the tree are the same object when their positions are the same.\<close>

fun at_path :: "account \<Rightarrow> nat list \<Rightarrow> account option" where
  "at_path a [] = Some a"
| "at_path a (i # is) =
     (if i < length (accounts a) then at_path (accounts a ! i) is else None)"

text \<open>The positions below an account, children first and then the positions below each
  child.\<close>

function sub_paths :: "account \<Rightarrow> nat list list" where
  "sub_paths (Account n f cs) =
     map (\<lambda>i. [i]) [0..<length cs]
     @ concat (map (\<lambda>i. map ((#) i) (sub_paths (cs ! i))) [0..<length cs])"
  by pat_completeness auto
termination
proof (relation "measure size")
  show "wf (measure (size :: account \<Rightarrow> nat))" by simp
next
  fix n f :: string and cs :: "account list" and i :: nat
  assume "i \<in> set [0..<length cs]"
  then have "cs ! i \<in> set cs" by simp
  then have "size (cs ! i) \<le> size_list size cs" by (rule size_list_estimation') simp
  then show "(cs ! i, Account n f cs) \<in> measure size" by simp
qed

text \<open>A complete tree of depth \<open>d\<close> with branching factor \<open>b\<close>.\<close>

fun complete :: "nat \<Rightarrow> nat \<Rightarrow> account \<Rightarrow> bool" where
  "complete b 0 a = (accounts a = [])"
| "complete b (Suc d) a = (length (accounts a) = b \<and> (\<forall>c\<in>set (accounts a). complete b d c))"

text \<open>The complete tree of depth 2 with two children at every inner account.\<close>

definition tree22 :: account where
  "tree22 =
     Account ''AfA'' ''AfA''
       [Account ''A'' ''AfA:A'' [Account ''X'' ''AfA:A:X'' [], Account ''Y'' ''AfA:A:Y'' []],
        Account ''B'' ''AfA:B'' [Account ''X'' ''AfA:B:X'' [], Account ''Y'' ''AfA:B:Y'' []]]"

section \<open>Notions for the discoverer\<close>

text \<open>The transaction of the posting holds a sibling posting on the account with fullname
  \<open>f\<close>, an account other than the posting's own.\<close>

definition sibling_on :: "journal \<Rightarrow> post \<Rightarrow> string \<Rightarrow> bool" where
  "sibling_on j post f =
     (\<exists>p\<in>set (xact_posts j (xact post)).
        fullname (account p) = f \<and> fullname (account p) \<noteq> fullname (account post))"

text \<open>The pairs of an inventory for an account fullname and a transaction, and for an
  account fullname and a transaction code.\<close>

definition pairs_for :: "string \<Rightarrow> xact \<Rightarrow> (account \<times> xact) list \<Rightarrow> (account \<times> xact) list" where
  "pairs_for f t pairs = filter (\<lambda>e. fullname (fst e) = f \<and> snd e = t) pairs"

definition pairs_for_code ::
  "string \<Rightarrow> string option \<Rightarrow> (account \<times> xact) list \<Rightarrow> (account \<times> xact) list" where
  "pairs_for_code f c pairs = filter (\<lambda>e. fullname (fst e) = f \<and> code (snd e) = c) pairs"

text \<open>What identifies an element of the inventory set: the fullname of the account and the
  transaction.\<close>

definition pair_key :: "account \<times> xact \<Rightarrow> string \<times> xact" where
  "pair_key e = (fullname (fst e), snd e)"

text \<open>The journal of the scenario with a second write-off of the laptop in 2021, in a
  transaction of its own with the same code.\<close>

definition x4 :: xact where
  "x4 = \<lparr>xact_ref = 4, code = Some ''INV1''\<rparr>"

definition p10 :: post where
  "p10 = \<lparr>post_id = 10, account = afa, xact = x4, date = (2021, 12, 1), amount = 200\<rparr>"

definition p11 :: post where
  "p11 = \<lparr>post_id = 11, account = laptop, xact = x4, date = (2021, 12, 1), amount = - 200\<rparr>"

definition j3 :: journal where
  "j3 = \<lparr>find_account_re = (\<lambda>s. if s = ''AfA'' then Some afa else None),
          all_posts = [p1, p2, p3, p4, p10, p11]\<rparr>"

text \<open>The row of the laptop in the report of that journal for 2021: bought for 1000, book
  value 1000 at the start of the year, 400 written off, book value 600 at the end.\<close>

definition laptop_2021 :: inventory_item where
  "laptop_2021 =
     \<lparr>item_code = Some (Some ''INV1''), item = Some ''Laptop'',
      item_account = Some ''Assets:Laptop'', item_year = Some 2021,
      buy_date = Some (2020, 1, 15), total_value = Some 1000,
      last_year_value = Some 1000, next_year_value = Some 600,
      deprecation_amount = Some (- 400)\<rparr>"


section \<open>Python built-ins and the generators\<close>

lemma py_sum_sum_list: "py_sum xs = sum_list xs"
proof -
  have "foldl (+) a xs = a + sum_list xs" for a :: int
    by (induction xs arbitrary: a) simp_all
  then show ?thesis by (simp add: py_sum_def)
qed

lemma fold_min_Min:
  "fold (\<lambda>y m. if y < m then y else m) xs (x::'a::linorder) = Min (insert x (set xs))"
proof (induction xs arbitrary: x)
  case Nil
  show ?case by simp
next
  case (Cons y ys)
  have "Min (insert (if y < x then y else x) (set ys)) = Min (insert x (insert y (set ys)))"
  proof (cases "set ys = {}")
    case True
    then show ?thesis by (auto simp: min_def)
  next
    case False
    then show ?thesis by (auto simp: min_def)
  qed
  with Cons show ?case by simp
qed

lemma py_min_Nil: "py_min [] = Inl (ValueError ''min() arg is an empty sequence'')"
  by (simp add: py_min_def)

lemma py_min_Min: "xs \<noteq> [] \<Longrightarrow> py_min xs = Inr (Min (set xs))"
  by (cases xs) (simp_all add: py_min_def fold_min_Min)

lemma comprehension_filter_map:
  "concat (map (\<lambda>p. if P p then [f p] else []) xs) = map f (filter P xs)"
  by (induction xs) simp_all

lemma dates_code_posts:
  "[date p. p \<leftarrow> posts j acc, code (xact p) = code x] = map date (code_posts j acc x)"
  by (simp add: code_posts_def comprehension_filter_map)

lemma deprecation_sum_Unpacked:
  "deprecation_sum (Unpacked fp) c yr ps a =
     Inr (a + (\<Sum>p\<leftarrow>filter (\<lambda>p. year_of (date p) = yr \<and> post_id p \<noteq> post_id fp
                                \<and> amount p < 0 \<and> code (xact p) = c) ps. amount p))"
  by (induction ps arbitrary: a) (simp_all add: first_post_id_def)

lemma deprecation_sum_Still_list:
  "deprecation_sum (Still_list l) c yr ps a =
     (if \<exists>p\<in>set ps. year_of (date p) = yr then Inl (AttributeError ''list'' ''id'') else Inr a)"
  by (induction ps arbitrary: a) (simp_all add: first_post_id_def)


lemma first_post_candidates:
  "[p \<leftarrow> posts j acc. code (xact p) = code x \<and> date p = Min (date ` set (code_posts j acc x))
       \<and> amount p > 0] = first_posts j acc x"
  by (simp add: first_posts_def code_posts_def)

lemma InventoryItem_no_code_posts:
  assumes "code_posts j acc x = []"
  shows "InventoryItem j acc x yr =
           ([], new_item\<lparr>item_code := Some (code x), item := Some (name acc),
                   item_account := Some (fullname acc), item_year := Some yr\<rparr>,
            Some (ValueError ''min() arg is an empty sequence''))"
  using assms by (simp add: InventoryItem_def dates_code_posts py_min_Nil)

lemma InventoryItem_unique:
  assumes "first_posts j acc x = [fp]"
  shows "InventoryItem j acc x yr =
    ([], new_item\<lparr>item_code := Some (code x), item := Some (name acc),
          item_account := Some (fullname acc), item_year := Some yr,
          buy_date := Some (Min (date ` set (code_posts j acc x))),
          total_value :=
             Some (py_sum [\<bar>amount p\<bar>. p \<leftarrow> posts j acc, pn \<leftarrow> xact_posts j (xact p),
                             date p = Min (date ` set (code_posts j acc x)) \<and> code (xact p) = code x
                             \<and> amount pn < 0 \<and> post_id p \<noteq> post_id pn]),
          last_year_value :=
             Some (py_sum [amount p. p \<leftarrow> posts j acc,
                             (year_of (date p) < yr \<and> code (xact p) = code x)
                             \<or> (year_of (date p) = yr \<and> amount p > 0 \<and> code (xact p) = code x)]),
          next_year_value :=
             Some (py_sum [amount p. p \<leftarrow> posts j acc,
                             year_of (date p) \<le> yr \<and> code (xact p) = code x]),
          deprecation_amount :=
             Some (\<Sum>p\<leftarrow>filter (\<lambda>p. year_of (date p) = yr \<and> post_id p \<noteq> post_id fp
                                \<and> amount p < 0 \<and> code (xact p) = code x) (posts j acc). amount p)\<rparr>,
     None)"
proof -
  have ne: "code_posts j acc x \<noteq> []"
    using assms by (auto simp: first_posts_def)
  show ?thesis
    using assms ne
    by (simp add: InventoryItem_def dates_code_posts py_min_Min first_post_candidates
          deprecation_sum_Unpacked Let_def)
qed

lemma InventoryItem_not_unique:
  assumes "code_posts j acc x \<noteq> []" and "\<forall>fp. first_posts j acc x \<noteq> [fp]"
  shows "InventoryItem j acc x yr =
    ([if first_posts j acc x = [] then ''need more than 0 values to unpack''
      else ''too many values to unpack''],
     (let self = new_item\<lparr>item_code := Some (code x), item := Some (name acc),
          item_account := Some (fullname acc), item_year := Some yr,
          buy_date := Some (Min (date ` set (code_posts j acc x))),
          total_value :=
             Some (py_sum [\<bar>amount p\<bar>. p \<leftarrow> posts j acc, pn \<leftarrow> xact_posts j (xact p),
                             date p = Min (date ` set (code_posts j acc x)) \<and> code (xact p) = code x
                             \<and> amount pn < 0 \<and> post_id p \<noteq> post_id pn]),
          last_year_value :=
             Some (py_sum [amount p. p \<leftarrow> posts j acc,
                             (year_of (date p) < yr \<and> code (xact p) = code x)
                             \<or> (year_of (date p) = yr \<and> amount p > 0 \<and> code (xact p) = code x)]),
          next_year_value :=
             Some (py_sum [amount p. p \<leftarrow> posts j acc,
                             year_of (date p) \<le> yr \<and> code (xact p) = code x])\<rparr>
      in if \<exists>p\<in>set (posts j acc). year_of (date p) = yr then self
         else self\<lparr>deprecation_amount := Some 0\<rparr>),
     if \<exists>p\<in>set (posts j acc). year_of (date p) = yr
     then Some (AttributeError ''list'' ''id'') else None)"
proof (cases "first_posts j acc x")
  case Nil
  with assms(1) show ?thesis
    by (simp add: InventoryItem_def dates_code_posts py_min_Min first_post_candidates
          deprecation_sum_Still_list Let_def)
next
  case (Cons p ps)
  with assms(2) obtain q qs where "ps = q # qs" by (cases ps) auto
  with Cons assms(1) show ?thesis
    by (simp add: InventoryItem_def dates_code_posts py_min_Min first_post_candidates
          deprecation_sum_Still_list Let_def)
qed


lemmas j0_defs = j0_def p1_def p2_def p3_def p4_def x1_def x2_def laptop_def card_def afa_def

lemma posts_j0_laptop: "posts j0 laptop = [p1, p4]"
  by (simp add: posts_def j0_defs)

lemma code_posts_j0_laptop: "code_posts j0 laptop x2 = [p1, p4]"
  by (simp add: code_posts_def posts_j0_laptop) (simp add: j0_defs)

lemma first_posts_j0_laptop: "first_posts j0 laptop x2 = [p1]"
  by (simp add: first_posts_def code_posts_j0_laptop) (simp add: j0_defs)

text \<open>The end-to-end scenario of the specification for the year 2021: bought on 2020-01-15
  for 1000, book value 1000 at the start of the year, 200 written off, book value 800 at
  the end.\<close>

lemma InventoryItem_j0_2021:
  "InventoryItem j0 laptop x2 2021 =
     ([], \<lparr>item_code = Some (Some ''INV1''), item = Some ''Laptop'',
            item_account = Some ''Assets:Laptop'', item_year = Some 2021,
            buy_date = Some (2020, 1, 15), total_value = Some 1000,
            last_year_value = Some 1000, next_year_value = Some 800,
            deprecation_amount = Some (- 200)\<rparr>, None)"
proof -
  have x: "xact_posts j0 (xact p1) = [p1, p2]" "xact_posts j0 (xact p4) = [p3, p4]"
    by (simp_all add: xact_posts_def j0_defs)
  show ?thesis
    by (simp add: InventoryItem_unique [OF first_posts_j0_laptop] posts_j0_laptop
          code_posts_j0_laptop x py_sum_def new_item_def)
       (simp add: j0_defs year_of_def)
qed

lemma year_split_sum:
  "(\<Sum>p\<leftarrow>filter (\<lambda>p. year_of (date p) \<le> yr \<and> code (xact p) = c) ps. amount p) =
   (\<Sum>p\<leftarrow>filter (\<lambda>p. (year_of (date p) < yr \<and> code (xact p) = c)
                      \<or> (year_of (date p) = yr \<and> amount p > 0 \<and> code (xact p) = c)) ps. amount p)
   + (\<Sum>p\<leftarrow>filter (\<lambda>p. year_of (date p) = yr \<and> amount p < 0 \<and> code (xact p) = c) ps. amount p)"
  by (induction ps) auto

lemma first_posts_member:
  assumes "first_posts j acc x = [fp]"
  shows "fp \<in> set (posts j acc) \<and> amount fp > 0"
proof -
  have "fp \<in> set (first_posts j acc x)" using assms by simp
  then show ?thesis by (simp add: first_posts_def code_posts_def)
qed

lemma exclusion_vacuous:
  assumes "distinct (map post_id ps)" and "fp \<in> set ps" and "amount fp > 0"
  shows "filter (\<lambda>p. year_of (date p) = yr \<and> post_id p \<noteq> post_id fp
                      \<and> amount p < 0 \<and> code (xact p) = c) ps
         = filter (\<lambda>p. year_of (date p) = yr \<and> amount p < 0 \<and> code (xact p) = c) ps"
proof (rule filter_cong[OF refl])
  fix p assume p: "p \<in> set ps"
  have "post_id p = post_id fp \<Longrightarrow> p = fp"
    using assms(1,2) p by (meson distinct_map inj_onD)
  with assms(3) show "(year_of (date p) = yr \<and> post_id p \<noteq> post_id fp \<and> amount p < 0 \<and> code (xact p) = c)
        = (year_of (date p) = yr \<and> amount p < 0 \<and> code (xact p) = c)"
    by auto
qed


section \<open>The valuation of one asset\<close>

text \<open>
  Claim C3. Whenever the account has a posting with the code of the transaction (so that the
  constructor gets past the buy date), \<open>last_year_value\<close> is the sum of \<open>amount\<close> over the
  postings of the account with (\<open>date.year < year\<close> and matching code) or
  (\<open>date.year == year\<close> and \<open>amount > 0\<close> and matching code).
\<close>

theorem last_year_value_sum:
  assumes "code_posts j acc x \<noteq> []"
  shows "last_year_value (fst (snd (InventoryItem j acc x yr))) =
           Some (\<Sum>p\<leftarrow>filter (\<lambda>p. (year_of (date p) < yr \<and> code (xact p) = code x)
                      \<or> (year_of (date p) = yr \<and> amount p > 0 \<and> code (xact p) = code x))
                    (posts j acc). amount p)"
proof (cases "\<exists>fp. first_posts j acc x = [fp]")
  case True
  then obtain fp where "first_posts j acc x = [fp]" ..
  then show ?thesis
    by (simp add: InventoryItem_unique py_sum_sum_list comprehension_filter_map)
next
  case False
  with assms show ?thesis
    by (simp add: InventoryItem_not_unique py_sum_sum_list comprehension_filter_map Let_def)
qed

theorem last_year_value_sum_witness:
  "code_posts j0 laptop x2 \<noteq> [] \<and>
   last_year_value (fst (snd (InventoryItem j0 laptop x2 2021))) =
           Some (\<Sum>p\<leftarrow>filter (\<lambda>p. (year_of (date p) < 2021 \<and> code (xact p) = code x2)
                      \<or> (year_of (date p) = 2021 \<and> amount p > 0 \<and> code (xact p) = code x2))
                    (posts j0 laptop). amount p) \<and>
   last_year_value (fst (snd (InventoryItem j0 laptop x2 2021))) = Some 1000"
proof -
  have h: "code_posts j0 laptop x2 \<noteq> []" by (simp add: code_posts_j0_laptop)
  have v: "last_year_value (fst (snd (InventoryItem j0 laptop x2 2021))) = Some 1000"
    by (simp add: InventoryItem_j0_2021)
  show ?thesis using h last_year_value_sum [OF h, of 2021] v by (intro conjI)
qed

text \<open>
  Claim C4. When exactly one posting \<open>fp\<close> qualifies as \<open>first_post\<close>, the item is
  constructed and its \<open>deprecation_amount\<close> is the sum of \<open>amount\<close> over the postings of the
  account with \<open>date.year == year\<close>, \<open>id != first_post.id\<close>, \<open>amount < 0\<close> and matching
  code.
\<close>

theorem deprecation_amount_sum:
  assumes "first_posts j acc x = [fp]"
  shows "snd (snd (InventoryItem j acc x yr)) = None \<and>
         deprecation_amount (fst (snd (InventoryItem j acc x yr))) =
           Some (\<Sum>p\<leftarrow>filter (\<lambda>p. year_of (date p) = yr \<and> post_id p \<noteq> post_id fp
                                \<and> amount p < 0 \<and> code (xact p) = code x) (posts j acc). amount p)"
  using assms by (simp add: InventoryItem_unique)

theorem deprecation_amount_sum_witness:
  "first_posts j0 laptop x2 = [p1] \<and>
   snd (snd (InventoryItem j0 laptop x2 2021)) = None \<and>
   deprecation_amount (fst (snd (InventoryItem j0 laptop x2 2021))) =
     Some (\<Sum>p\<leftarrow>filter (\<lambda>p. year_of (date p) = 2021 \<and> post_id p \<noteq> post_id p1
                          \<and> amount p < 0 \<and> code (xact p) = code x2) (posts j0 laptop). amount p) \<and>
   deprecation_amount (fst (snd (InventoryItem j0 laptop x2 2021))) = Some (- 200)"
proof -
  have v: "deprecation_amount (fst (snd (InventoryItem j0 laptop x2 2021))) = Some (- 200)"
    by (simp add: InventoryItem_j0_2021)
  show ?thesis
    using first_posts_j0_laptop deprecation_amount_sum [OF first_posts_j0_laptop, of 2021] v
    by (intro conjI) simp_all
qed

text \<open>
  Claim C10. When exactly one posting qualifies as \<open>first_post\<close> and the postings of the
  account have distinct ids, the test \<open>id != first_post.id\<close> excludes nothing:
  \<open>deprecation_amount\<close> is the sum of \<open>amount\<close> over all code-matching postings of the year
  with \<open>amount < 0\<close>.
\<close>

theorem deprecation_exclusion_vacuous:
  assumes "first_posts j acc x = [fp]" and "distinct (map post_id (posts j acc))"
  shows "snd (snd (InventoryItem j acc x yr)) = None \<and>
         deprecation_amount (fst (snd (InventoryItem j acc x yr))) =
           Some (\<Sum>p\<leftarrow>filter (\<lambda>p. year_of (date p) = yr \<and> amount p < 0 \<and> code (xact p) = code x)
                    (posts j acc). amount p)"
  using assms first_posts_member [OF assms(1)]
  by (simp add: InventoryItem_unique exclusion_vacuous)

theorem deprecation_exclusion_vacuous_witness:
  "first_posts j0 laptop x2 = [p1] \<and> distinct (map post_id (posts j0 laptop)) \<and>
   snd (snd (InventoryItem j0 laptop x2 2021)) = None \<and>
   deprecation_amount (fst (snd (InventoryItem j0 laptop x2 2021))) =
     Some (\<Sum>p\<leftarrow>filter (\<lambda>p. year_of (date p) = 2021 \<and> amount p < 0 \<and> code (xact p) = code x2)
              (posts j0 laptop). amount p) \<and>
   (\<Sum>p\<leftarrow>filter (\<lambda>p. year_of (date p) = 2021 \<and> amount p < 0 \<and> code (xact p) = code x2)
              (posts j0 laptop). amount p) = - 200"
proof -
  have d: "distinct (map post_id (posts j0 laptop))"
    by (simp add: posts_j0_laptop) (simp add: j0_defs)
  have v: "(\<Sum>p\<leftarrow>filter (\<lambda>p. year_of (date p) = 2021 \<and> amount p < 0 \<and> code (xact p) = code x2)
              (posts j0 laptop). amount p) = - 200"
    by (simp add: posts_j0_laptop) (simp add: j0_defs year_of_def)
  show ?thesis
    using first_posts_j0_laptop d
      deprecation_exclusion_vacuous [OF first_posts_j0_laptop d, of 2021] v
    by (intro conjI) simp_all
qed

text \<open>
  Claim C1. For an item that was constructed from an account whose postings have distinct
  ids (the data model gives every posting a unique identifier) and none of whose
  code-matching postings is dated after the year of the report,
  \<open>next_year_value == last_year_value + deprecation_amount\<close>.
\<close>

theorem next_year_value_identity:
  assumes "distinct (map post_id (posts j acc))"
    and "snd (snd (InventoryItem j acc x yr)) = None"
    and "\<forall>p\<in>set (code_posts j acc x). year_of (date p) \<le> yr"
  shows "\<exists>l d n. last_year_value (fst (snd (InventoryItem j acc x yr))) = Some l
           \<and> deprecation_amount (fst (snd (InventoryItem j acc x yr))) = Some d
           \<and> next_year_value (fst (snd (InventoryItem j acc x yr))) = Some n
           \<and> n = l + d"
proof -
  have ne: "code_posts j acc x \<noteq> []"
    using assms(2) by (auto simp: InventoryItem_no_code_posts)
  show ?thesis
  proof (cases "\<exists>fp. first_posts j acc x = [fp]")
    case True
    then obtain fp where fp: "first_posts j acc x = [fp]" ..
    show ?thesis
      using fp first_posts_member [OF fp] assms(1)
      by (simp add: InventoryItem_unique py_sum_sum_list comprehension_filter_map
            exclusion_vacuous year_split_sum [of yr "code x" "posts j acc"])
  next
    case False
    with ne assms(2) have none: "\<forall>p\<in>set (posts j acc). year_of (date p) \<noteq> yr"
      by (auto simp: InventoryItem_not_unique split: if_splits)
    then have "filter (\<lambda>p. year_of (date p) = yr \<and> amount p < 0 \<and> code (xact p) = code x)
                 (posts j acc) = []"
      by (simp add: filter_empty_conv)
    with False ne none show ?thesis
      by (simp add: InventoryItem_not_unique py_sum_sum_list comprehension_filter_map Let_def
            year_split_sum [of yr "code x" "posts j acc"])
  qed
qed

theorem next_year_value_identity_witness:
  "distinct (map post_id (posts j0 laptop)) \<and>
   snd (snd (InventoryItem j0 laptop x2 2021)) = None \<and>
   list_all (\<lambda>p. year_of (date p) \<le> 2021) (code_posts j0 laptop x2) \<and>
   (\<exists>l d n. last_year_value (fst (snd (InventoryItem j0 laptop x2 2021))) = Some l
           \<and> deprecation_amount (fst (snd (InventoryItem j0 laptop x2 2021))) = Some d
           \<and> next_year_value (fst (snd (InventoryItem j0 laptop x2 2021))) = Some n
           \<and> n = l + d) \<and>
   last_year_value (fst (snd (InventoryItem j0 laptop x2 2021))) = Some 1000 \<and>
   deprecation_amount (fst (snd (InventoryItem j0 laptop x2 2021))) = Some (- 200) \<and>
   next_year_value (fst (snd (InventoryItem j0 laptop x2 2021))) = Some 800"
proof -
  have v: "last_year_value (fst (snd (InventoryItem j0 laptop x2 2021))) = Some 1000"
    "deprecation_amount (fst (snd (InventoryItem j0 laptop x2 2021))) = Some (- 200)"
    "next_year_value (fst (snd (InventoryItem j0 laptop x2 2021))) = Some 800"
    by (simp_all add: InventoryItem_j0_2021)
  have d: "distinct (map post_id (posts j0 laptop))"
    by (simp add: posts_j0_laptop) (simp add: j0_defs)
  have c: "snd (snd (InventoryItem j0 laptop x2 2021)) = None"
    by (simp add: InventoryItem_unique [OF first_posts_j0_laptop])
  have y: "\<forall>p\<in>set (code_posts j0 laptop x2). year_of (date p) \<le> 2021"
    by (simp add: code_posts_j0_laptop) (simp add: j0_defs year_of_def)
  show ?thesis
    using d c y next_year_value_identity [OF d c y] v
    by (intro conjI) (simp_all add: list_all_iff)
qed

text \<open>
  Claim C9. When no posting of the account carries the code of the triggering transaction,
  \<open>min\<close> is applied to an empty sequence: the constructor prints nothing and ends with that
  ValueError, and of the attributes only \<open>code\<close>, \<open>item\<close>, \<open>account\<close> and \<open>year\<close> are set.
\<close>

theorem construction_fails_without_code_posts:
  assumes "code_posts j acc x = []"
  shows "InventoryItem j acc x yr =
           ([], new_item\<lparr>item_code := Some (code x), item := Some (name acc),
                   item_account := Some (fullname acc), item_year := Some yr\<rparr>,
            Some (ValueError ''min() arg is an empty sequence''))
         \<and> buy_date (fst (snd (InventoryItem j acc x yr))) = None
         \<and> total_value (fst (snd (InventoryItem j acc x yr))) = None
         \<and> last_year_value (fst (snd (InventoryItem j acc x yr))) = None
         \<and> next_year_value (fst (snd (InventoryItem j acc x yr))) = None
         \<and> deprecation_amount (fst (snd (InventoryItem j acc x yr))) = None"
  using assms by (simp add: InventoryItem_no_code_posts new_item_def)

theorem construction_fails_without_code_posts_witness:
  "code_posts j0 laptop x7 = [] \<and>
   InventoryItem j0 laptop x7 2021 =
           ([], new_item\<lparr>item_code := Some (code x7), item := Some (name laptop),
                   item_account := Some (fullname laptop), item_year := Some 2021\<rparr>,
            Some (ValueError ''min() arg is an empty sequence''))
         \<and> buy_date (fst (snd (InventoryItem j0 laptop x7 2021))) = None
         \<and> total_value (fst (snd (InventoryItem j0 laptop x7 2021))) = None
         \<and> last_year_value (fst (snd (InventoryItem j0 laptop x7 2021))) = None
         \<and> next_year_value (fst (snd (InventoryItem j0 laptop x7 2021))) = None
         \<and> deprecation_amount (fst (snd (InventoryItem j0 laptop x7 2021))) = None"
proof -
  have h: "code_posts j0 laptop x7 = []"
    by (simp add: code_posts_def posts_j0_laptop) (simp add: j0_defs x7_def)
  show ?thesis
    using h construction_fails_without_code_posts [OF h, of 2021] by (rule conjI)
qed

text \<open>
  Claim C7, as the code has it. When the account has a code-matching posting and zero or
  more than one posting qualifies as \<open>first_post\<close>, the ValueError of the unpacking is caught
  and its message printed, and \<open>first_post\<close> stays bound to the list of candidates. The sum
  for \<open>deprecation_amount\<close> then raises AttributeError exactly when some posting of the
  account is dated in the year of the report; otherwise the item is constructed, with
  \<open>deprecation_amount\<close> 0.
\<close>

theorem first_post_lookup_failure:
  assumes "code_posts j acc x \<noteq> []" and "length (first_posts j acc x) \<noteq> 1"
  shows "fst (InventoryItem j acc x yr) =
           [if first_posts j acc x = [] then ''need more than 0 values to unpack''
            else ''too many values to unpack'']
         \<and> (if \<exists>p\<in>set (posts j acc). year_of (date p) = yr
            then snd (snd (InventoryItem j acc x yr)) = Some (AttributeError ''list'' ''id'')
                 \<and> deprecation_amount (fst (snd (InventoryItem j acc x yr))) = None
            else snd (snd (InventoryItem j acc x yr)) = None
                 \<and> deprecation_amount (fst (snd (InventoryItem j acc x yr))) = Some 0)"
proof -
  have "\<forall>fp. first_posts j acc x \<noteq> [fp]"
    using assms(2) by auto
  with assms(1) show ?thesis
    by (simp add: InventoryItem_not_unique Let_def new_item_def)
qed

lemma posts_j0_card: "posts j0 card = [p2]"
  by (simp add: posts_def j0_defs)

lemma code_posts_j0_card: "code_posts j0 card x1 = [p2]"
  by (simp add: code_posts_def posts_j0_card) (simp add: j0_defs)

lemma first_posts_j0_card: "first_posts j0 card x1 = []"
  by (simp add: first_posts_def code_posts_j0_card) (simp add: j0_defs)

theorem first_post_lookup_failure_witness:
  "code_posts j0 card x1 \<noteq> [] \<and> length (first_posts j0 card x1) \<noteq> 1 \<and>
   fst (InventoryItem j0 card x1 2020) = [''need more than 0 values to unpack''] \<and>
   snd (snd (InventoryItem j0 card x1 2020)) = Some (AttributeError ''list'' ''id'') \<and>
   deprecation_amount (fst (snd (InventoryItem j0 card x1 2020))) = None"
proof -
  have h1: "code_posts j0 card x1 \<noteq> []" by (simp add: code_posts_j0_card)
  have h2: "length (first_posts j0 card x1) \<noteq> 1" by (simp add: first_posts_j0_card)
  have y: "\<exists>p\<in>set (posts j0 card). year_of (date p) = 2020"
    by (simp add: posts_j0_card) (simp add: j0_defs year_of_def)
  show ?thesis
    using h1 h2 y first_post_lookup_failure [OF h1 h2, of 2020]
    by (simp add: first_posts_j0_card)
qed

lemmas j1_defs = j1_def p5_def p6_def x5_def laptop_def afa_def

lemma posts_j1_laptop: "posts j1 laptop = [p6]"
  by (simp add: posts_def j1_defs)

lemma code_posts_j1_laptop: "code_posts j1 laptop x5 = [p6]"
  by (simp add: code_posts_def posts_j1_laptop) (simp add: j1_defs)

lemma first_posts_j1_laptop: "first_posts j1 laptop x5 = []"
  by (simp add: first_posts_def code_posts_j1_laptop) (simp add: j1_defs)

theorem first_post_failure_no_raise_counterexample:
  "code_posts j1 laptop x5 \<noteq> [] \<and> first_posts j1 laptop x5 = [] \<and>
   fst (InventoryItem j1 laptop x5 2021) = [''need more than 0 values to unpack''] \<and>
   snd (snd (InventoryItem j1 laptop x5 2021)) = None \<and>
   deprecation_amount (fst (snd (InventoryItem j1 laptop x5 2021))) = Some 0"
proof -
  have h1: "code_posts j1 laptop x5 \<noteq> []" by (simp add: code_posts_j1_laptop)
  have h2: "\<forall>fp. first_posts j1 laptop x5 \<noteq> [fp]" by (simp add: first_posts_j1_laptop)
  have y: "\<not> (\<exists>p\<in>set (posts j1 laptop). year_of (date p) = 2021)"
    by (simp add: posts_j1_laptop) (simp add: j1_defs year_of_def)
  show ?thesis
    using h1 y by (simp add: InventoryItem_not_unique [OF h1 h2] first_posts_j1_laptop Let_def)
qed

lemma sum_list_guarded_const:
  "sum_list (concat (map (\<lambda>q. if P q then [a] else []) qs)) = a * int (length (filter P qs))"
  for a :: int
  by (induction qs) (simp_all add: algebra_simps)

lemma total_value_generator:
  "py_sum [\<bar>amount p\<bar>. p \<leftarrow> ps, pn \<leftarrow> sib p, D p \<and> C p \<and> amount pn < 0 \<and> post_id p \<noteq> post_id pn]
     = (\<Sum>p\<leftarrow>filter (\<lambda>p. D p \<and> C p) ps.
          \<bar>amount p\<bar> * int (length (filter (\<lambda>pn. amount pn < 0 \<and> post_id p \<noteq> post_id pn) (sib p))))"
proof -
  have inner: "sum_list (concat (map (\<lambda>pn. if D p \<and> C p \<and> amount pn < 0 \<and> post_id p \<noteq> post_id pn
                                         then [\<bar>amount p\<bar>] else []) (sib p)))
        = (if D p \<and> C p
           then \<bar>amount p\<bar> * int (length (filter (\<lambda>pn. amount pn < 0 \<and> post_id p \<noteq> post_id pn) (sib p)))
           else 0)" for p
    using sum_list_guarded_const
      [of "\<lambda>pn. D p \<and> C p \<and> amount pn < 0 \<and> post_id p \<noteq> post_id pn" "\<bar>amount p\<bar>" "sib p"]
    by (cases "D p \<and> C p") (simp_all cong: conj_cong)
  show ?thesis
    unfolding py_sum_sum_list
    by (induction ps) (simp_all add: inner)
qed

text \<open>What the code computes for \<open>total_value\<close>: every posting of the account dated on the
  buy date with the code counts once for each other posting of its transaction that has a
  negative amount.\<close>

lemma total_value_once_per_sibling:
  assumes "code_posts j acc x \<noteq> []"
  shows "total_value (fst (snd (InventoryItem j acc x yr))) =
           Some (\<Sum>p\<leftarrow>filter (\<lambda>p. date p = Min (date ` set (code_posts j acc x))
                                  \<and> code (xact p) = code x) (posts j acc).
                   \<bar>amount p\<bar> * int (length (filter (\<lambda>pn. amount pn < 0 \<and> post_id p \<noteq> post_id pn)
                                                (xact_posts j (xact p)))))"
proof (cases "\<exists>fp. first_posts j acc x = [fp]")
  case True
  then obtain fp where "first_posts j acc x = [fp]" ..
  then show ?thesis
    by (simp add: InventoryItem_unique total_value_generator)
next
  case False
  with assms show ?thesis
    by (simp add: InventoryItem_not_unique Let_def total_value_generator)
qed

lemmas j2_defs = j2_def p7_def p8_def p9_def x3_def laptop_def card_def bank_def

lemma posts_j2_laptop: "posts j2 laptop = [p7]"
  by (simp add: posts_def j2_defs)

lemma code_posts_j2_laptop: "code_posts j2 laptop x3 = [p7]"
  by (simp add: code_posts_def posts_j2_laptop) (simp add: j2_defs)

lemma first_posts_j2_laptop: "first_posts j2 laptop x3 = [p7]"
  by (simp add: first_posts_def code_posts_j2_laptop) (simp add: j2_defs)

lemma xact_posts_j2: "xact_posts j2 (xact p7) = [p7, p8, p9]"
  by (simp add: xact_posts_def j2_defs)

text \<open>
  Claim C2 at the journal in which the laptop, bought for 1000, is paid by two postings of
  - 600 and - 400: the specification counts the posting of 1000 once, the code counts it
  once for each of the two paying postings.
\<close>

theorem total_value_counts_every_payer:
  "total_value (fst (snd (InventoryItem j2 laptop x3 2020))) = Some 2000
   \<and> spec_total_value j2 laptop x3 = 1000"
proof -
  have "total_value (fst (snd (InventoryItem j2 laptop x3 2020))) = Some 2000"
    by (simp add: InventoryItem_unique [OF first_posts_j2_laptop] posts_j2_laptop
          code_posts_j2_laptop xact_posts_j2 py_sum_def)
       (simp add: j2_defs)
  moreover have "spec_total_value j2 laptop x3 = 1000"
    by (simp add: spec_total_value_def posts_j2_laptop code_posts_j2_laptop xact_posts_j2)
       (simp add: j2_defs)
  ultimately show ?thesis ..
qed

section \<open>The walk over the account tree\<close>

lemma map_nth_upt: "map (\<lambda>i. g (cs ! i)) [0..<length cs] = map g cs"
proof -
  have "map (\<lambda>i. g (cs ! i)) [0..<length cs] = map g (map ((!) cs) [0..<length cs])"
    by simp
  then show ?thesis by (simp only: map_nth)
qed

lemma sub_paths_accounts:
  "map (at_path a) (sub_paths a) = map Some (get_sub_accounts a)"
proof (induction a rule: sub_paths.induct)
  case (1 n f cs)
  have top: "map (at_path (Account n f cs)) (map (\<lambda>i. [i]) [0..<length cs]) = map Some cs"
  proof -
    have "map (at_path (Account n f cs)) (map (\<lambda>i. [i]) [0..<length cs])
            = map (\<lambda>i. Some (cs ! i)) [0..<length cs]"
      by simp
    then show ?thesis by (simp only: map_nth_upt)
  qed
  have below: "map (\<lambda>i. map (at_path (Account n f cs)) (map ((#) i) (sub_paths (cs ! i))))
                 [0..<length cs]
               = map (\<lambda>i. map Some (get_sub_accounts (cs ! i))) [0..<length cs]"
  proof (rule map_cong [OF refl])
    fix i assume i: "i \<in> set [0..<length cs]"
    then have "i < length cs" by simp
    then have "map (at_path (Account n f cs)) (map ((#) i) (sub_paths (cs ! i)))
                 = map (at_path (cs ! i)) (sub_paths (cs ! i))"
      by simp
    with "1.IH" [OF i]
    show "map (at_path (Account n f cs)) (map ((#) i) (sub_paths (cs ! i)))
            = map Some (get_sub_accounts (cs ! i))"
      by simp
  qed
  have "map (at_path (Account n f cs))
          (concat (map (\<lambda>i. map ((#) i) (sub_paths (cs ! i))) [0..<length cs]))
        = concat (map (\<lambda>i. map (at_path (Account n f cs)) (map ((#) i) (sub_paths (cs ! i))))
                    [0..<length cs])"
    by (simp only: map_concat map_map comp_def)
  also have "\<dots> = concat (map (\<lambda>i. map Some (get_sub_accounts (cs ! i))) [0..<length cs])"
    by (simp only: below)
  also have "\<dots> = concat (map (\<lambda>c. map Some (get_sub_accounts c)) cs)"
    using map_nth_upt [of "\<lambda>c. map Some (get_sub_accounts c)" cs] by (rule arg_cong)
  also have "\<dots> = map Some (concat (map get_sub_accounts cs))"
    by (simp only: map_concat map_map comp_def)
  finally have sub: "map (at_path (Account n f cs))
          (concat (map (\<lambda>i. map ((#) i) (sub_paths (cs ! i))) [0..<length cs]))
        = map Some (concat (map get_sub_accounts cs))" .
  show ?case
    by (simp only: sub_paths.simps get_sub_accounts.simps map_append top sub)
qed

lemma sub_paths_Cons:
  "(i # q \<in> set (sub_paths (Account n f cs)))
     = (i < length cs \<and> (q = [] \<or> q \<in> set (sub_paths (cs ! i))))"
  by auto

lemma sub_paths_not_Nil: "[] \<notin> set (sub_paths a)"
  by (cases a) auto

lemma sub_paths_member: "(p \<in> set (sub_paths a)) = (p \<noteq> [] \<and> at_path a p \<noteq> None)"
proof (induction p arbitrary: a)
  case Nil
  show ?case by (simp add: sub_paths_not_Nil)
next
  case (Cons i q)
  obtain n f cs where a: "a = Account n f cs" by (cases a)
  show ?case
  proof (cases "q = []")
    case True
    then show ?thesis by (simp add: a sub_paths_Cons del: sub_paths.simps)
  next
    case False
    with Cons [of "cs ! i"] show ?thesis
      by (simp add: a sub_paths_Cons del: sub_paths.simps)
  qed
qed

lemma sub_paths_set: "set (sub_paths a) = {p. p \<noteq> [] \<and> at_path a p \<noteq> None}"
  using sub_paths_member by blast

lemma distinct_concat_upt:
  assumes "\<And>i. i < n \<Longrightarrow> distinct (g i)"
    and "\<And>i k. i < k \<Longrightarrow> k < n \<Longrightarrow> set (g i) \<inter> set (g k) = {}"
  shows "distinct (concat (map g [0..<n]))"
  using assms
proof (induction n)
  case 0
  show ?case by simp
next
  case (Suc n)
  then have "distinct (concat (map g [0..<n]))" by simp
  moreover have "distinct (g n)" using Suc.prems(1) by simp
  moreover have "set (concat (map g [0..<n])) \<inter> set (g n) = {}"
  proof -
    have "set (g i) \<inter> set (g n) = {}" if "i < n" for i
      using Suc.prems(2) [of i n] that by simp
    then show ?thesis by fastforce
  qed
  ultimately show ?case by simp
qed

lemma sub_paths_distinct: "distinct (sub_paths a)"
proof (induction a rule: sub_paths.induct)
  case (1 n f cs)
  have a: "distinct (map (\<lambda>i. [i]) [0..<length cs])"
    by (simp add: distinct_map inj_on_def)
  have b: "distinct (concat (map (\<lambda>i. map ((#) i) (sub_paths (cs ! i))) [0..<length cs]))"
  proof (rule distinct_concat_upt)
    fix i assume "i < length cs"
    then have "i \<in> set [0..<length cs]" by simp
    from "1.IH" [OF this] show "distinct (map ((#) i) (sub_paths (cs ! i)))"
      by (simp add: distinct_map)
  next
    fix i k :: nat assume "i < k"
    then show "set (map ((#) i) (sub_paths (cs ! i))) \<inter> set (map ((#) k) (sub_paths (cs ! k))) = {}"
      by auto
  qed
  have c: "set (map (\<lambda>i. [i]) [0..<length cs])
             \<inter> set (concat (map (\<lambda>i. map ((#) i) (sub_paths (cs ! i))) [0..<length cs])) = {}"
    using sub_paths_not_Nil by auto
  from a b c show ?case by (simp only: sub_paths.simps distinct_append)
qed

lemma get_sub_accounts_smaller: "c \<in> set (get_sub_accounts a) \<Longrightarrow> size c < size a"
proof (induction a arbitrary: c rule: get_sub_accounts.induct)
  case (1 n f cs)
  from "1.prems" consider "c \<in> set cs" | k where "k \<in> set cs" "c \<in> set (get_sub_accounts k)"
    by auto
  then show ?case
  proof cases
    case 1
    then have "size c \<le> size_list size cs"
      using size_list_estimation' [of c cs "size c" size] by simp
    then show ?thesis by simp
  next
    case 2
    with "1.IH" have "size c < size k" by simp
    moreover from 2 have "size k \<le> size_list size cs"
      using size_list_estimation' [of k cs "size k" size] by simp
    ultimately show ?thesis by simp
  qed
qed

lemma geometric_step: "(\<Sum>i = 1..Suc d. b ^ i) = b + b * (\<Sum>i = 1..d. b ^ i)" for b :: nat
proof (induction d)
  case 0
  show ?case by simp
next
  case (Suc d)
  have "(\<Sum>i = 1..Suc (Suc d). b ^ i) = (\<Sum>i = 1..Suc d. b ^ i) + b ^ Suc (Suc d)"
    by simp
  also have "\<dots> = b + b * (\<Sum>i = 1..d. b ^ i) + b * b ^ Suc d"
    using Suc by simp
  also have "\<dots> = b + b * (\<Sum>i = 1..Suc d. b ^ i)"
    by (simp add: algebra_simps)
  finally show ?case .
qed

lemma sum_list_all_equal:
  "(\<And>x. x \<in> set xs \<Longrightarrow> h x = k) \<Longrightarrow> sum_list (map h xs) = length xs * k" for k :: nat
  by (induction xs) simp_all

lemma complete_size: "complete b d a \<Longrightarrow> length (get_sub_accounts a) = (\<Sum>i = 1..d. b ^ i)"
proof (induction d arbitrary: a)
  case 0
  then show ?case by (cases a) simp
next
  case (Suc d)
  obtain n f cs where a: "a = Account n f cs" by (cases a)
  with Suc.prems have len: "length cs = b" and sub: "\<forall>c\<in>set cs. complete b d c"
    by simp_all
  have "sum_list (map (\<lambda>c. length (get_sub_accounts c)) cs) = length cs * (\<Sum>i = 1..d. b ^ i)"
    using sub Suc.IH by (intro sum_list_all_equal) simp
  then have "length (get_sub_accounts a) = b + b * (\<Sum>i = 1..d. b ^ i)"
    using a len by (simp add: length_concat comp_def)
  then show ?case by (simp only: geometric_step)
qed

text \<open>
  Claim C8. \<open>get_sub_accounts\<close> lists the accounts at the positions below the given account,
  every such position once and no other: there is a duplicate-free list of exactly the
  non-empty positions of the tree at which the result holds the accounts, in order. The
  account itself is not in the result. For a complete tree of depth \<open>d\<close> with branching
  factor \<open>b\<close> the result has \<open>b + b^2 + ... + b^d\<close> entries.
\<close>

theorem get_sub_accounts_descendants:
  "(\<exists>ps. distinct ps \<and> set ps = {p. p \<noteq> [] \<and> at_path a p \<noteq> None}
         \<and> map (at_path a) ps = map Some (get_sub_accounts a))
   \<and> a \<notin> set (get_sub_accounts a)
   \<and> (complete b d a \<longrightarrow> length (get_sub_accounts a) = (\<Sum>i = 1..d. b ^ i))"
proof (intro conjI impI)
  show "\<exists>ps. distinct ps \<and> set ps = {p. p \<noteq> [] \<and> at_path a p \<noteq> None}
         \<and> map (at_path a) ps = map Some (get_sub_accounts a)"
    using sub_paths_distinct sub_paths_set sub_paths_accounts by blast
  show "a \<notin> set (get_sub_accounts a)"
    using get_sub_accounts_smaller [of a a] by auto
  show "length (get_sub_accounts a) = (\<Sum>i = 1..d. b ^ i)" if "complete b d a"
    using that by (rule complete_size)
qed

theorem get_sub_accounts_descendants_witness:
  "complete 2 2 tree22
   \<and> (\<exists>ps. distinct ps \<and> set ps = {p. p \<noteq> [] \<and> at_path tree22 p \<noteq> None}
         \<and> map (at_path tree22) ps = map Some (get_sub_accounts tree22))
   \<and> tree22 \<notin> set (get_sub_accounts tree22)
   \<and> length (get_sub_accounts tree22) = (\<Sum>i = 1..2. 2 ^ i)
   \<and> length (get_sub_accounts tree22) = 6"
proof -
  have c: "complete 2 2 tree22"
    by (simp add: tree22_def numeral_2_eq_2)
  have l: "length (get_sub_accounts tree22) = 6"
    by (simp add: tree22_def)
  show ?thesis
    using c l get_sub_accounts_descendants [of tree22 2 2] by blast
qed

section \<open>The selection of the depreciation postings\<close>

lemma get_sub_accounts_positions:
  "set (get_sub_accounts a) = {c. \<exists>p. p \<noteq> [] \<and> at_path a p = Some c}"
proof (intro set_eqI iffI)
  fix c assume "c \<in> set (get_sub_accounts a)"
  then have "Some c \<in> set (map Some (get_sub_accounts a))" by simp
  then have "Some c \<in> set (map (at_path a) (sub_paths a))"
    by (simp only: sub_paths_accounts)
  then obtain p where "p \<in> set (sub_paths a)" and "at_path a p = Some c" by auto
  then have "p \<noteq> [] \<and> at_path a p = Some c" by (simp add: sub_paths_member)
  then show "c \<in> {c. \<exists>p. p \<noteq> [] \<and> at_path a p = Some c}" by blast
next
  fix c assume "c \<in> {c. \<exists>p. p \<noteq> [] \<and> at_path a p = Some c}"
  then obtain p where p: "p \<noteq> []" "at_path a p = Some c" by blast
  then have "p \<in> set (sub_paths a)" by (simp add: sub_paths_member)
  then have "at_path a p \<in> set (map (at_path a) (sub_paths a))" by simp
  then have "Some c \<in> set (map Some (get_sub_accounts a))"
    by (simp only: sub_paths_accounts p)
  then show "c \<in> set (get_sub_accounts a)" by auto
qed

lemma subtree_positions:
  "set (a # get_sub_accounts a) = {c. \<exists>p. at_path a p = Some c}"
proof -
  have "(\<exists>p. at_path a p = Some c) = (c = a \<or> (\<exists>p. p \<noteq> [] \<and> at_path a p = Some c))" for c
  proof
    assume "\<exists>p. at_path a p = Some c"
    then obtain p where p: "at_path a p = Some c" ..
    show "c = a \<or> (\<exists>p. p \<noteq> [] \<and> at_path a p = Some c)"
    proof (cases p)
      case Nil
      with p show ?thesis by simp
    next
      case (Cons i q)
      with p show ?thesis by blast
    qed
  next
    assume "c = a \<or> (\<exists>p. p \<noteq> [] \<and> at_path a p = Some c)"
    then show "\<exists>p. at_path a p = Some c"
    proof
      assume "c = a"
      then have "at_path a [] = Some c" by simp
      then show ?thesis ..
    qed blast
  qed
  then show ?thesis by (auto simp: get_sub_accounts_positions)
qed

lemma set_comprehension_posts:
  "set [p. a \<leftarrow> as, p \<leftarrow> posts j a, year_of (date p) = yr]
     = {p. \<exists>a\<in>set as. p \<in> set (posts j a) \<and> year_of (date p) = yr}"
  by (induction as) auto

text \<open>
  Claim C6. When the lookup of the pattern finds no account, \<open>get_afa_posts\<close> raises the
  ValueError "Konto nicht gefunden" (the AccountNotFoundError of the specification), and
  \<open>main\<close> prints its message and no table. When it finds the account \<open>t\<close>, the result holds
  exactly the postings attached to \<open>t\<close> or to an account below \<open>t\<close> whose date lies in the
  year.
\<close>

theorem get_afa_posts_selects:
  "(find_account_re j pat = None \<longrightarrow>
      get_afa_posts j pat yr = Inl (ValueError (''Konto nicht gefunden: '' @ pat))
      \<and> main j pat yr = ([Message (''Konto nicht gefunden: '' @ pat)], None))
   \<and> (find_account_re j pat = Some t \<longrightarrow>
      (\<exists>ps. get_afa_posts j pat yr = Inr ps
         \<and> set ps = {p. \<exists>a path. at_path t path = Some a
                            \<and> p \<in> set (posts j a) \<and> year_of (date p) = yr}))"
proof (intro conjI impI)
  assume n: "find_account_re j pat = None"
  then show "get_afa_posts j pat yr = Inl (ValueError (''Konto nicht gefunden: '' @ pat))"
    by (simp add: get_afa_posts_def)
  then show "main j pat yr = ([Message (''Konto nicht gefunden: '' @ pat)], None)"
    by (simp add: main_def)
next
  assume s: "find_account_re j pat = Some t"
  have "set [p. a \<leftarrow> t # get_sub_accounts t, p \<leftarrow> posts j a, year_of (date p) = yr]
          = {p. \<exists>a path. at_path t path = Some a \<and> p \<in> set (posts j a) \<and> year_of (date p) = yr}"
    unfolding set_comprehension_posts subtree_positions by blast
  with s show "\<exists>ps. get_afa_posts j pat yr = Inr ps
         \<and> set ps = {p. \<exists>a path. at_path t path = Some a
                            \<and> p \<in> set (posts j a) \<and> year_of (date p) = yr}"
    by (simp add: get_afa_posts_def)
qed

theorem get_afa_posts_selects_witness:
  "find_account_re j0 ''Nonexistent'' = None
   \<and> get_afa_posts j0 ''Nonexistent'' 2021
       = Inl (ValueError (''Konto nicht gefunden: '' @ ''Nonexistent''))
   \<and> main j0 ''Nonexistent'' 2021
       = ([Message (''Konto nicht gefunden: '' @ ''Nonexistent'')], None)
   \<and> find_account_re j0 ''AfA'' = Some afa
   \<and> (\<exists>ps. get_afa_posts j0 ''AfA'' 2021 = Inr ps
         \<and> set ps = {p. \<exists>a path. at_path afa path = Some a
                            \<and> p \<in> set (posts j0 a) \<and> year_of (date p) = 2021})
   \<and> get_afa_posts j0 ''AfA'' 2021 = Inr [p3]"
proof -
  have n: "find_account_re j0 ''Nonexistent'' = None" by (simp add: j0_def)
  have s: "find_account_re j0 ''AfA'' = Some afa" by (simp add: j0_def)
  have v: "get_afa_posts j0 ''AfA'' 2021 = Inr [p3]"
    by (simp add: get_afa_posts_def posts_def j0_defs year_of_def)
  show ?thesis
    using n s v
      get_afa_posts_selects [of j0 "''Nonexistent''" 2021 afa]
      get_afa_posts_selects [of j0 "''AfA''" 2021 afa]
    by blast
qed

section \<open>The discovery of the assets\<close>

lemma pair_eq_key: "pair_eq e e' = (pair_key e = pair_key e')"
  by (simp add: pair_eq_def pair_key_def)

lemma set_add_keys:
  "map pair_key (set_add s e) =
     (if pair_key e \<in> set (map pair_key s) then map pair_key s
      else map pair_key s @ [pair_key e])"
proof -
  have "(\<exists>e'\<in>set s. pair_eq e' e) = (pair_key e \<in> set (map pair_key s))"
    unfolding pair_eq_key set_map by (metis (no_types) image_iff)
  then show ?thesis by (simp add: set_add_def)
qed

lemma set_ior_keys:
  "distinct (map pair_key s) \<Longrightarrow>
     distinct (map pair_key (set_ior s es))
     \<and> set (map pair_key (set_ior s es)) = set (map pair_key s) \<union> set (map pair_key es)"
proof (induction es arbitrary: s)
  case Nil
  then show ?case by (simp add: set_ior_def)
next
  case (Cons e es)
  have step: "set_ior s (e # es) = set_ior (set_add s e) es"
    by (simp add: set_ior_def)
  have d: "distinct (map pair_key (set_add s e))"
    using Cons.prems by (simp add: set_add_keys)
  have k: "set (map pair_key (set_add s e)) = insert (pair_key e) (set (map pair_key s))"
    by (auto simp: set_add_keys)
  from Cons.IH [OF d] show ?case
    unfolding step k by auto
qed

lemma py_set_keys: "set (map pair_key (py_set es)) = set (map pair_key es)"
  using set_ior_keys [of "[]" es] by (simp add: py_set_def)

lemma fold_inventory_keys:
  "distinct (map pair_key s) \<Longrightarrow>
     distinct (map pair_key (fold (\<lambda>post inventory. set_ior inventory (py_set (g post))) ps s))
     \<and> set (map pair_key (fold (\<lambda>post inventory. set_ior inventory (py_set (g post))) ps s))
         = set (map pair_key s) \<union> (\<Union>post\<in>set ps. set (map pair_key (g post)))"
proof (induction ps arbitrary: s)
  case Nil
  then show ?case by simp
next
  case (Cons q ps)
  have d: "distinct (map pair_key (set_ior s (py_set (g q))))"
    using set_ior_keys [OF Cons.prems] by blast
  have k: "set (map pair_key (set_ior s (py_set (g q))))
             = set (map pair_key s) \<union> set (map pair_key (g q))"
    using set_ior_keys [OF Cons.prems, of "py_set (g q)"] by (simp only: py_set_keys)
  from Cons.IH [OF d] show ?case
    unfolding fold_simps k by auto
qed

lemma get_inventory_distinct: "distinct (map pair_key (get_inventory j ps))"
  unfolding get_inventory_def
  using fold_inventory_keys
    [of "[]" "\<lambda>post. [(account p, xact p). p \<leftarrow> xact_posts j (xact post),
                             fullname (account p) \<noteq> fullname (account post)]" ps]
  by simp

lemma sibling_keys:
  "((f, t) \<in> set (map pair_key [(account p, xact p). p \<leftarrow> xact_posts j (xact post),
                                   fullname (account p) \<noteq> fullname (account post)]))
     = (sibling_on j post f \<and> xact post = t)"
proof -
  have "set (map pair_key [(account p, xact p). p \<leftarrow> xact_posts j (xact post),
                             fullname (account p) \<noteq> fullname (account post)])
          = (\<lambda>p. (fullname (account p), xact post))
              ` {p \<in> set (xact_posts j (xact post)).
                   fullname (account p) \<noteq> fullname (account post)}"
    by (simp add: comprehension_filter_map pair_key_def xact_posts_def image_image)
  then show ?thesis
    by (auto simp: sibling_on_def)
qed

lemma get_inventory_keys:
  "((f, t) \<in> set (map pair_key (get_inventory j ps)))
     = (\<exists>post\<in>set ps. sibling_on j post f \<and> xact post = t)"
proof -
  have "set (map pair_key (get_inventory j ps))
          = (\<Union>post\<in>set ps.
               set (map pair_key [(account p, xact p). p \<leftarrow> xact_posts j (xact post),
                                     fullname (account p) \<noteq> fullname (account post)]))"
    unfolding get_inventory_def
    using fold_inventory_keys
      [of "[]" "\<lambda>post. [(account p, xact p). p \<leftarrow> xact_posts j (xact post),
                               fullname (account p) \<noteq> fullname (account post)]" ps]
    by simp
  then have "((f, t) \<in> set (map pair_key (get_inventory j ps)))
          = (\<exists>post\<in>set ps.
               (f, t) \<in> set (map pair_key [(account p, xact p). p \<leftarrow> xact_posts j (xact post),
                                     fullname (account p) \<noteq> fullname (account post)]))"
    by (simp only: UN_iff)
  then show ?thesis by (simp only: sibling_keys)
qed

lemma count_key:
  "distinct (map k xs) \<Longrightarrow> v \<in> set (map k xs) \<Longrightarrow> length (filter (\<lambda>e. k e = v) xs) = 1"
proof (induction xs)
  case Nil
  then show ?case by simp
next
  case (Cons x xs)
  show ?case
  proof (cases "k x = v")
    case True
    with Cons.prems(1) have "\<forall>e\<in>set xs. k e \<noteq> v"
      by (metis distinct.simps(2) image_eqI list.simps(9) set_map)
    then have "filter (\<lambda>e. k e = v) xs = []"
      by (simp add: filter_empty_conv)
    with True show ?thesis by simp
  next
    case False
    with Cons show ?thesis by auto
  qed
qed

lemma pairs_for_key: "pairs_for f t xs = filter (\<lambda>e. pair_key e = (f, t)) xs"
  by (simp add: pairs_for_def pair_key_def)

text \<open>
  The set does what a set does: a pair of an account fullname and a transaction that some
  depreciation posting leads to is in the inventory exactly once, however many of the
  postings lead to it.
\<close>

lemma get_inventory_one_pair:
  assumes "post \<in> set ps" and "sibling_on j post f"
  shows "length (pairs_for f (xact post) (get_inventory j ps)) = 1"
proof -
  have "(f, xact post) \<in> set (map pair_key (get_inventory j ps))"
    using assms by (auto simp only: get_inventory_keys)
  with get_inventory_distinct show ?thesis
    unfolding pairs_for_key by (rule count_key)
qed

lemmas j3_defs = j3_def p1_def p2_def p3_def p4_def p10_def p11_def x1_def x2_def x4_def
  laptop_def card_def afa_def

lemma xact_posts_j3_x2: "xact_posts j3 x2 = [p3, p4]"
  by (simp add: xact_posts_def j3_defs)

lemma xact_posts_j3_x4: "xact_posts j3 x4 = [p10, p11]"
  by (simp add: xact_posts_def j3_defs)

lemma get_inventory_j3: "get_inventory j3 [p3, p10] = [(laptop, x2), (laptop, x4)]"
proof -
  have x: "xact p3 = x2" "xact p10 = x4" by (simp_all add: p3_def p10_def)
  have a: "account p3 = afa" "account p4 = laptop" "account p10 = afa" "account p11 = laptop"
    "xact p4 = x2" "xact p11 = x4"
    by (simp_all add: p3_def p4_def p10_def p11_def)
  have n: "fullname laptop \<noteq> fullname afa" "x2 \<noteq> x4"
    by (simp_all add: laptop_def afa_def x2_def x4_def)
  show ?thesis
    using n by (simp add: get_inventory_def x xact_posts_j3_x2 xact_posts_j3_x4 a
          py_set_def set_ior_def set_add_def pair_eq_def)
qed

lemma posts_j3_laptop: "posts j3 laptop = [p1, p4, p11]"
  by (simp add: posts_def j3_defs)

lemma code_posts_j3_laptop:
  "code_posts j3 laptop x2 = [p1, p4, p11]" "code_posts j3 laptop x4 = [p1, p4, p11]"
  by (simp_all add: code_posts_def posts_j3_laptop) (simp_all add: j3_defs)

lemma first_posts_j3_laptop:
  "first_posts j3 laptop x2 = [p1]" "first_posts j3 laptop x4 = [p1]"
  by (simp_all add: first_posts_def code_posts_j3_laptop) (simp_all add: j3_defs)

lemma buy_date_j3_laptop:
  "Min (date ` set (code_posts j3 laptop x2)) = (2020, 1, 15)"
  "Min (date ` set (code_posts j3 laptop x4)) = (2020, 1, 15)"
  by (simp_all add: code_posts_j3_laptop) (simp_all add: j3_defs)

lemma xact_posts_j3_x1: "xact_posts j3 x1 = [p1, p2]"
  by (simp add: xact_posts_def j3_defs)

lemma j3_fields:
  "xact p1 = x1" "xact p4 = x2" "xact p11 = x4"
  "date p1 = (2020, 1, 15)" "date p4 = (2021, 6, 1)" "date p11 = (2021, 12, 1)"
  "amount p1 = 1000" "amount p2 = - 1000" "amount p3 = 200" "amount p4 = - 200"
  "amount p10 = 200" "amount p11 = - 200"
  "post_id p1 = 1" "post_id p2 = 2" "post_id p3 = 3" "post_id p4 = 4"
  "post_id p10 = 10" "post_id p11 = 11"
  "code x1 = Some ''INV1''" "code x2 = Some ''INV1''" "code x4 = Some ''INV1''"
  "name laptop = ''Laptop''" "fullname laptop = ''Assets:Laptop''"
  by (simp_all add: j3_defs)

text \<open>\<open>InventoryItem\<close> reads the code of the transaction and nothing else of it: the two
  transactions of the write-offs give the same item, with both write-offs in it.\<close>

lemma InventoryItem_j3_x2: "InventoryItem j3 laptop x2 2021 = ([], laptop_2021, None)"
  unfolding InventoryItem_unique [OF first_posts_j3_laptop(1)] buy_date_j3_laptop
    posts_j3_laptop
  by (simp add: j3_fields xact_posts_j3_x1 xact_posts_j3_x2 xact_posts_j3_x4 year_of_def
        py_sum_def new_item_def laptop_2021_def)

lemma InventoryItem_j3_x4: "InventoryItem j3 laptop x4 2021 = ([], laptop_2021, None)"
  unfolding InventoryItem_unique [OF first_posts_j3_laptop(2)] buy_date_j3_laptop
    posts_j3_laptop
  by (simp add: j3_fields xact_posts_j3_x1 xact_posts_j3_x2 xact_posts_j3_x4 year_of_def
        py_sum_def new_item_def laptop_2021_def)


lemma get_afa_posts_j3: "get_afa_posts j3 ''AfA'' 2021 = Inr [p3, p10]"
  by (simp add: get_afa_posts_def posts_def j3_defs year_of_def)

text \<open>
  Claim C5 fails in the code. The claim: when the transactions of two depreciation postings
  hold sibling postings on the same asset account fullname and carry the same transaction
  code, the discoverer yields exactly one pair of account and transaction for them, hence
  exactly one InventoryItem. The elements of the set are compared by the fullname of the
  account and the transaction object; the code of the transaction is not looked at. In the
  journal \<open>j3\<close> the laptop is written off twice in 2021, in two transactions with the code
  INV1 of the purchase: the postings selected for the account AfA and the year 2021 are
  \<open>p3\<close> and \<open>p10\<close>, both have a sibling posting on Assets:Laptop, their transactions are
  two objects with one code, and the discoverer yields two pairs for the laptop and that
  code. The two pairs give the same item, \<open>main\<close> puts it into the table twice, each row
  with the write-off of 400 of the whole year, and the footer of the table counts the one
  laptop with a purchase price of 2000 and a write-off of 800.
\<close>

theorem same_code_item_listed_twice:
  "get_afa_posts j3 ''AfA'' 2021 = Inr [p3, p10]
   \<and> sibling_on j3 p3 ''Assets:Laptop'' \<and> sibling_on j3 p10 ''Assets:Laptop''
   \<and> code (xact p3) = code (xact p10) \<and> xact p3 \<noteq> xact p10
   \<and> get_inventory j3 [p3, p10] = [(laptop, x2), (laptop, x4)]
   \<and> length (pairs_for_code ''Assets:Laptop'' (Some ''INV1'') (get_inventory j3 [p3, p10])) = 2
   \<and> InventoryItem j3 laptop x2 2021 = InventoryItem j3 laptop x4 2021
   \<and> main j3 ''AfA'' 2021 = ([Table [laptop_2021, laptop_2021] 2021], None)
   \<and> column_sum total_value [laptop_2021, laptop_2021] = Some 2000
   \<and> column_sum deprecation_amount [laptop_2021, laptop_2021] = Some (- 800)"
proof -
  have x: "xact p3 = x2" "xact p10 = x4" by (simp_all add: p3_def p10_def)
  have s1: "sibling_on j3 p3 ''Assets:Laptop''"
    by (simp add: sibling_on_def x xact_posts_j3_x2) (simp add: j3_defs)
  have s2: "sibling_on j3 p10 ''Assets:Laptop''"
    by (simp add: sibling_on_def x xact_posts_j3_x4) (simp add: j3_defs)
  have c: "code (xact p3) = code (xact p10)" "xact p3 \<noteq> xact p10"
    by (simp_all add: x x2_def x4_def)
  have l: "length (pairs_for_code ''Assets:Laptop'' (Some ''INV1'') (get_inventory j3 [p3, p10])) = 2"
    by (simp add: get_inventory_j3 pairs_for_code_def j3_fields)
  have i: "InventoryItem j3 laptop x2 2021 = InventoryItem j3 laptop x4 2021"
    by (simp only: InventoryItem_j3_x2 InventoryItem_j3_x4)
  have m: "main j3 ''AfA'' 2021 = ([Table [laptop_2021, laptop_2021] 2021], None)"
    by (simp add: main_def get_afa_posts_j3 get_inventory_j3 InventoryItem_j3_x2
          InventoryItem_j3_x4)
  have f: "column_sum total_value [laptop_2021, laptop_2021] = Some 2000"
    "column_sum deprecation_amount [laptop_2021, laptop_2021] = Some (- 800)"
    by (simp_all add: column_sum_def py_sum_def laptop_2021_def)
  from get_afa_posts_j3 s1 s2 c get_inventory_j3 l i m f show ?thesis by (intro conjI)
qed


end
